theory Spec2Isabelle
  imports Complex_Main "HOL-Library.Multiset"
begin

section \<open>Data model\<close>

text \<open>
  One row of the data frame handed to \<open>aggplot\<close>: a point geometry and the entry of the
  \<open>hue\<close> column. Python floats are idealised as rationals.
\<close>

record row =
  px :: rat
  py :: rat
  hue :: rat

definition coord :: "row \<Rightarrow> rat \<times> rat" where
  "coord p = (px p, py p)"

text \<open>Bounds are the 4-tuple \<open>(xmin, xmax, ymin, ymax)\<close> that \<open>aggplot\<close> unpacks.\<close>

type_synonym bbox = "rat \<times> rat \<times> rat \<times> rat"

text \<open>A leaf handed to the renderer exposes \<open>bounds\<close>, \<open>data\<close> and \<open>n\<close>.\<close>

record cell =
  c_bounds :: bbox
  c_data :: "row list"

definition c_n :: "cell \<Rightarrow> nat" where
  "c_n c = length (c_data c)"

text \<open>The \<open>QuadTree\<close> object: \<open>bounds\<close>, the rows, and \<open>agg\<close>, the coincidence groups
  keyed by coordinate.\<close>

record quadtree =
  qt_bounds :: bbox
  qt_data :: "row list"
  qt_agg :: "((rat \<times> rat) \<times> row list) list"

datatype message =
    Nmin_coloc int int
  | Zero_size_reduction

datatype error =
    ValueError message
  | ConfigurationError

datatype 'a colour = To_rgba 'a | White

section \<open>The spatial index\<close>

definition bounding_box :: "row list \<Rightarrow> bbox" where
  "bounding_box ps =
     (Min (set (map px ps)), Max (set (map px ps)),
      Min (set (map py ps)), Max (set (map py ps)))"

definition groups :: "row list \<Rightarrow> ((rat \<times> rat) \<times> row list) list" where
  "groups ps = map (\<lambda>c. (c, filter (\<lambda>p. coord p = c) ps)) (remdups (map coord ps))"

text \<open>
  Modelled from the spec: the constructor of class \<open>QuadTree\<close> (module \<open>geoplot.quad\<close>,
  imported at geoplot.py:13). Section 4.1, \<open>build(points)\<close>: computes min/max over both
  axes to form the bounding box, groups the points by exactly equal coordinate, and fails
  with a \<open>ConfigurationError\<close> if the dataset is empty.
\<close>

definition QuadTree :: "row list \<Rightarrow> error + quadtree" where
  "QuadTree df =
     (if df = [] then Inl ConfigurationError
      else Inr \<lparr>qt_bounds = bounding_box df, qt_data = df, qt_agg = groups df\<rparr>)"

section \<open>The quadtree branch of aggplot\<close>

text \<open>\<open>np.max\<close> of a Python list: a zero-size list raises \<open>ValueError\<close>.\<close>

definition np_max :: "int list \<Rightarrow> error + int" where
  "np_max xs = (if xs = [] then Inl (ValueError Zero_size_reduction) else Inr (Max (set xs)))"

text \<open>
  geoplot.py:957, \<open>nmax if nmax else len(df)\<close>: the test is Python truthiness, so both
  \<open>None\<close> and \<open>0\<close> select the default.
\<close>

definition nmax_or_default :: "int option \<Rightarrow> row list \<Rightarrow> int" where
  "nmax_or_default nmax df =
     (case nmax of None \<Rightarrow> int (length df)
      | Some k \<Rightarrow> if k \<noteq> 0 then k else int (length df))"

text \<open>
  geoplot.py:958, \<open>nmin if nmin else np.min([20, int(0.05 * len(df))])\<close>. \<open>int\<close>
  truncates; the product is non-negative, so truncation is the floor.
\<close>

definition nmin_or_default :: "int option \<Rightarrow> row list \<Rightarrow> int" where
  "nmin_or_default nmin df =
     (case nmin of None \<Rightarrow> min 20 \<lfloor>(5 / 100 :: rat) * of_nat (length df)\<rfloor>
      | Some k \<Rightarrow> if k \<noteq> 0 then k else min 20 \<lfloor>(5 / 100 :: rat) * of_nat (length df)\<rfloor>)"

text \<open>geoplot.py:965, \<open>np.max([len(l) for l in quad.agg.values()])\<close>.\<close>

definition max_coloc :: "quadtree \<Rightarrow> error + int" where
  "max_coloc quad = np_max (map (\<lambda>(c, l). int (length l)) (qt_agg quad))"

text \<open>geoplot.py:972-976, the body of the loop over the partitions.\<close>

definition paint :: "(rat list \<Rightarrow> 'a) \<Rightarrow> int \<Rightarrow> cell \<Rightarrow> bbox \<times> 'a colour" where
  "paint agg nsig p =
     (c_bounds p, if int (c_n p) > nsig then To_rgba (agg (map hue (c_data p))) else White)"

text \<open>
  geoplot.py:955-976, the \<open>else\<close> branch of \<open>aggplot\<close> (quadtree mode). The method
  \<open>partition\<close> of the absent class is the first parameter; its result \<open>None\<close> stands
  for a call that does not return.
\<close>

definition aggplot_quadtree ::
  "(quadtree \<Rightarrow> int \<Rightarrow> int \<Rightarrow> (error + cell list) option) \<Rightarrow> row list \<Rightarrow>
     int option \<Rightarrow> int option \<Rightarrow> int \<Rightarrow> (rat list \<Rightarrow> 'a) \<Rightarrow>
     (error + (bbox \<times> 'a colour) list) option" where
  "aggplot_quadtree part df nmax nmin nsig agg =
     (let nmax' = nmax_or_default nmax df;
          nmin' = nmin_or_default nmin df
      in case QuadTree df of
           Inl e \<Rightarrow> Some (Inl e)
         | Inr quad \<Rightarrow>
            (case max_coloc quad of
               Inl e \<Rightarrow> Some (Inl e)
             | Inr m \<Rightarrow>
                 if m > nmin' then Some (Inl (ValueError (Nmin_coloc nmin' m)))
                 else (case part quad nmin' nmax' of
                         None \<Rightarrow> None
                       | Some (Inl e) \<Rightarrow> Some (Inl e)
                       | Some (Inr partitions) \<Rightarrow> Some (Inr (map (paint agg nsig) partitions)))))"

section \<open>The partitioner\<close>

definition mk_cell :: "bbox \<Rightarrow> row list \<Rightarrow> cell" where
  "mk_cell b ps = \<lparr>c_bounds = b, c_data = ps\<rparr>"

text \<open>
  Modelled from the spec: the splitting step of the absent module \<open>geoplot.quad\<close>.
  Section 4.2, splitting geometry: the box is bisected at its arithmetic midpoint on both
  axes, and each point goes to exactly one child by the half-open convention (below the
  midpoint goes left or down, at or above it goes right or up). Degenerate-box guard: a
  box of zero width or zero height is split along the other axis only, and a box that is
  degenerate on both axes is not split at all (empty list of children).
\<close>

definition split_cell :: "cell \<Rightarrow> cell list" where
  "split_cell c =
     (case c_bounds c of (xmin, xmax, ymin, ymax) \<Rightarrow>
        let mx = (xmin + xmax) / 2; my = (ymin + ymax) / 2; ps = c_data c
        in if xmin = xmax \<and> ymin = ymax then []
           else if xmin = xmax then
             [mk_cell (xmin, xmax, ymin, my) (filter (\<lambda>p. py p < my) ps),
              mk_cell (xmin, xmax, my, ymax) (filter (\<lambda>p. my \<le> py p) ps)]
           else if ymin = ymax then
             [mk_cell (xmin, mx, ymin, ymax) (filter (\<lambda>p. px p < mx) ps),
              mk_cell (mx, xmax, ymin, ymax) (filter (\<lambda>p. mx \<le> px p) ps)]
           else
             [mk_cell (xmin, mx, ymin, my) (filter (\<lambda>p. px p < mx \<and> py p < my) ps),
              mk_cell (mx, xmax, ymin, my) (filter (\<lambda>p. mx \<le> px p \<and> py p < my) ps),
              mk_cell (xmin, mx, my, ymax) (filter (\<lambda>p. px p < mx \<and> my \<le> py p) ps),
              mk_cell (mx, xmax, my, ymax) (filter (\<lambda>p. mx \<le> px p \<and> my \<le> py p) ps)])"

text \<open>The partition tree of Section 3: a cell is a leaf or owns its child cells.\<close>

datatype qnode = QLeaf cell | QNode cell "qnode list"

fun leaves :: "qnode \<Rightarrow> cell list" where
  "leaves (QLeaf c) = [c]"
| "leaves (QNode c ts) = concat (map leaves ts)"

text \<open>Every leaf together with the cell whose split produced it (\<open>None\<close> for the root).\<close>

fun leaves_from :: "cell option \<Rightarrow> qnode \<Rightarrow> (cell option \<times> cell) list" where
  "leaves_from parent (QLeaf c) = [(parent, c)]"
| "leaves_from parent (QNode c ts) = concat (map (leaves_from (Some c)) ts)"

text \<open>
  Modelled from the spec: the acceptance test of step 3 of the split decision. A
  tentative split is accepted when no non-empty child falls below the floor \<open>nmin\<close>
  (Section 4.2 (b) and the floor invariant of Section 8; the \<open>nmin\<close> entry of the
  docstring of \<open>aggplot\<close> describes the same rule).
\<close>

definition split_ok :: "int \<Rightarrow> cell list \<Rightarrow> bool" where
  "split_ok nmin children = list_all (\<lambda>c. c_n c = 0 \<or> nmin \<le> int (c_n c)) children"

text \<open>
  Modelled from the spec: the recursive split decision of Section 4.2 for a cell holding
  \<open>n\<close> points. Step 1: \<open>n > nmax\<close> forces the split. Step 2: otherwise \<open>n \<le> nmin\<close>
  makes the cell a leaf. Step 3: otherwise the cell is split tentatively and the split is
  kept only if it is accepted. The first argument bounds the recursion depth; \<open>None\<close>
  means that the bound was reached.
\<close>

fun subdivide :: "nat \<Rightarrow> int \<Rightarrow> int \<Rightarrow> cell \<Rightarrow> qnode option" where
  "subdivide 0 nmin nmax c = None"
| "subdivide (Suc k) nmin nmax c =
     (if nmax < int (c_n c) then
        (if split_cell c = [] then Some (QLeaf c)
         else map_option (QNode c) (those (map (subdivide k nmin nmax) (split_cell c))))
      else if int (c_n c) \<le> nmin then Some (QLeaf c)
      else if split_cell c \<noteq> [] \<and> split_ok nmin (split_cell c) then
        map_option (QNode c) (those (map (subdivide k nmin nmax) (split_cell c)))
      else Some (QLeaf c))"

text \<open>Section 4.1, \<open>max_coincidence()\<close>: the size of the largest coincidence group.\<close>

definition max_coincidence :: "quadtree \<Rightarrow> nat" where
  "max_coincidence quad = Max (insert 0 (set (map (\<lambda>(c, l). length l) (qt_agg quad))))"

definition root_cell :: "quadtree \<Rightarrow> cell" where
  "root_cell quad = mk_cell (qt_bounds quad) (qt_data quad)"

text \<open>
  Modelled from the spec: the method \<open>partition(nmin, nmax)\<close> of the absent class
  \<open>QuadTree\<close>. Section 4.2: invalid thresholds (\<open>nmin \<le> 0\<close> or \<open>nmax < nmin\<close>) and a
  failed pre-flight coincidence check are \<open>ConfigurationError\<close>s raised before any
  recursion; otherwise the root cell is subdivided and the leaves are returned.
\<close>

definition partition_tree :: "nat \<Rightarrow> quadtree \<Rightarrow> int \<Rightarrow> int \<Rightarrow> (error + qnode) option" where
  "partition_tree fuel quad nmin nmax =
     (if nmin \<le> 0 \<or> nmax < nmin then Some (Inl ConfigurationError)
      else if nmin < int (max_coincidence quad) then Some (Inl ConfigurationError)
      else map_option Inr (subdivide fuel nmin nmax (root_cell quad)))"

definition qt_partition :: "nat \<Rightarrow> quadtree \<Rightarrow> int \<Rightarrow> int \<Rightarrow> (error + cell list) option" where
  "qt_partition fuel quad nmin nmax =
     map_option (map_sum id leaves) (partition_tree fuel quad nmin nmax)"

section \<open>Notions used to state the properties\<close>

definition wf_box :: "bbox \<Rightarrow> bool" where
  "wf_box b = (case b of (xmin, xmax, ymin, ymax) \<Rightarrow> xmin \<le> xmax \<and> ymin \<le> ymax)"

text \<open>The closed rectangle of a bounding box and its open interior.\<close>

definition box_set :: "bbox \<Rightarrow> (rat \<times> rat) set" where
  "box_set b = (case b of (xmin, xmax, ymin, ymax) \<Rightarrow>
     {(u, v). xmin \<le> u \<and> u \<le> xmax \<and> ymin \<le> v \<and> v \<le> ymax})"

definition box_interior :: "bbox \<Rightarrow> (rat \<times> rat) set" where
  "box_interior b = (case b of (xmin, xmax, ymin, ymax) \<Rightarrow>
     {(u, v). xmin < u \<and> u < xmax \<and> ymin < v \<and> v < ymax})"

definition extent :: "bbox \<Rightarrow> rat" where
  "extent b = (case b of (xmin, xmax, ymin, ymax) \<Rightarrow> max (xmax - xmin) (ymax - ymin))"

text \<open>All points of a list share one exact coordinate.\<close>

definition coincident :: "row list \<Rightarrow> bool" where
  "coincident ps = list_all (\<lambda>p. list_all (\<lambda>q. coord p = coord q) ps) ps"

text \<open>The box is well formed and holds every point of the cell.\<close>

definition cell_ok :: "cell \<Rightarrow> bool" where
  "cell_ok c = (wf_box (c_bounds c) \<and> list_all (\<lambda>p. coord p \<in> box_set (c_bounds c)) (c_data c))"

text \<open>No coordinate is shared by more than \<open>m\<close> points of the list.\<close>

definition coloc_le :: "nat \<Rightarrow> row list \<Rightarrow> bool" where
  "coloc_le m ps = (\<forall>z. length (filter (\<lambda>p. coord p = z) ps) \<le> m)"

text \<open>Points on different coordinates are at least \<open>d\<close> apart on one of the axes.\<close>

definition separated :: "rat \<Rightarrow> row list \<Rightarrow> bool" where
  "separated d ps =
     (\<forall>p \<in> set ps. \<forall>q \<in> set ps. coord p \<noteq> coord q \<longrightarrow>
        d \<le> max \<bar>px p - px q\<bar> \<bar>py p - py q\<bar>)"

text \<open>
  The size of the coincidence group at a coordinate, and what it means for \<open>m\<close> to be
  the size of the largest coincidence group of a dataset: some point lies in a group of
  exactly \<open>m\<close> points and no point lies in a larger one.
\<close>

definition group_size :: "row list \<Rightarrow> rat \<times> rat \<Rightarrow> nat" where
  "group_size df z = length (filter (\<lambda>p. coord p = z) df)"

definition largest_coincidence :: "row list \<Rightarrow> nat \<Rightarrow> bool" where
  "largest_coincidence df m =
     (list_ex (\<lambda>p. group_size df (coord p) = m) df
      \<and> list_all (\<lambda>p. group_size df (coord p) \<le> m) df)"

text \<open>The default aggregation function, \<open>agg=np.mean\<close>.\<close>

definition np_mean :: "rat list \<Rightarrow> rat" where
  "np_mean vs = sum_list vs / of_nat (length vs)"

section \<open>Sample datasets\<close>

definition pt :: "rat \<Rightarrow> rat \<Rightarrow> row" where
  "pt a b = \<lparr>px = a, py = b, hue = 1\<rparr>"

text \<open>Five rows on one coordinate (the pre-flight scenario of Section 8).\<close>

definition df5 :: "row list" where
  "df5 = replicate 5 (pt 1 2)"

text \<open>Four rows: a group of three and a single point.\<close>

definition df_mixed :: "row list" where
  "df_mixed = [pt 1 2, pt 3 4, pt 1 2, pt 1 2]"

text \<open>Twenty rows on pairwise different coordinates, a grid of five by four.\<close>

definition df20 :: "row list" where
  "df20 = [pt 0 0, pt 1 0, pt 2 0, pt 3 0, pt 4 0,
           pt 0 1, pt 1 1, pt 2 1, pt 3 1, pt 4 1,
           pt 0 2, pt 1 2, pt 2 2, pt 3 2, pt 4 2,
           pt 0 3, pt 1 3, pt 2 3, pt 3 3, pt 4 3]"



section \<open>Properties of the quadtree branch\<close>

lemma floor_5_percent: "\<lfloor>(5 / 100 :: rat) * of_nat n\<rfloor> = int (n div 20)"
proof -
  have "(5 / 100 :: rat) * of_nat n = of_nat n / of_nat 20" by simp
  then show ?thesis by (simp only: floor_divide_of_nat_eq)
qed

lemma groups_nonempty: "df \<noteq> [] \<Longrightarrow> groups df \<noteq> []"
  by (simp add: groups_def)

lemma group_sizes_positive:
  assumes "g \<in> set (groups df)"
  shows "1 \<le> length (snd g)"
proof -
  from assms obtain c where c: "c \<in> set (map coord df)"
    and g: "g = (c, filter (\<lambda>p. coord p = c) df)"
    by (auto simp: groups_def)
  from c obtain p where "p \<in> set df" "coord p = c" by auto
  then have "p \<in> set (filter (\<lambda>p. coord p = c) df)" by simp
  then have "filter (\<lambda>p. coord p = c) df \<noteq> []" by (metis empty_iff empty_set)
  with g show ?thesis by (cases "filter (\<lambda>p. coord p = c) df") simp_all
qed

lemma max_coloc_positive:
  assumes "df \<noteq> []" and "QuadTree df = Inr quad"
  shows "\<exists>m. max_coloc quad = Inr m \<and> 1 \<le> m"
proof -
  from assms have agg: "qt_agg quad = groups df" by (auto simp: QuadTree_def)
  let ?xs = "map (\<lambda>(c, l). int (length l)) (groups df)"
  from assms have ne: "?xs \<noteq> []" by (simp add: groups_nonempty)
  then obtain x where x: "x \<in> set ?xs" by (cases ?xs) auto
  then obtain g where "g \<in> set (groups df)" "x = int (length (snd g))" by auto
  then have "1 \<le> x" using group_sizes_positive [of g df] by simp
  moreover have "x \<le> Max (set ?xs)" using x by simp
  ultimately have "1 \<le> Max (set ?xs)" by linarith
  with ne show ?thesis by (simp add: np_max_def max_coloc_def agg)
qed

lemma nmin_or_default_div:
  "nmin_or_default nmin df =
     (case nmin of None \<Rightarrow> min 20 (int (length df div 20))
      | Some k \<Rightarrow> if k \<noteq> 0 then k else min 20 (int (length df div 20)))"
  by (simp only: nmin_or_default_def floor_5_percent)

lemma max_coloc_largest:
  assumes "largest_coincidence df m" and "QuadTree df = Inr quad"
  shows "max_coloc quad = Inr (int m)"
proof -
  let ?xs = "map (\<lambda>(c, l). int (length l)) (groups df)"
  from assms(1) have ne: "df \<noteq> []" by (auto simp: largest_coincidence_def)
  with assms(2) have agg: "qt_agg quad = groups df" by (auto simp: QuadTree_def)
  have set: "set ?xs = (\<lambda>p. int (group_size df (coord p))) ` set df"
    by (auto simp: groups_def group_size_def image_iff)
  from assms(1) obtain p where "p \<in> set df" "group_size df (coord p) = m"
    by (auto simp: largest_coincidence_def list_ex_iff)
  then have mem: "int m \<in> set ?xs" unfolding set by auto
  from assms(1) have ub: "\<And>x. x \<in> set ?xs \<Longrightarrow> x \<le> int m"
    unfolding set by (auto simp: largest_coincidence_def list_all_iff)
  have "Max (set ?xs) = int m"
    by (rule Max_eqI) (use mem ub in auto)
  moreover from mem have "?xs \<noteq> []" by auto
  ultimately show ?thesis by (simp add: max_coloc_def np_max_def agg)
qed

lemma largest_coincidence_nonempty: "largest_coincidence df m \<Longrightarrow> df \<noteq> []"
  by (auto simp: largest_coincidence_def)

lemmas eval_defs = aggplot_quadtree_def pt_def QuadTree_def bounding_box_def groups_def
  coord_def max_coloc_def np_max_def nmin_or_default_div nmax_or_default_def

lemma largest_df_mixed: "largest_coincidence df_mixed 3"
  by (simp add: largest_coincidence_def df_mixed_def pt_def group_size_def coord_def)

lemma largest_df20: "largest_coincidence df20 1"
  by (simp add: largest_coincidence_def df20_def pt_def group_size_def coord_def)

text \<open>
  C1, as stated, fails twice. On \<open>df_mixed\<close> (largest group 3) with \<open>nmin = 2\<close> the
  error returned is the \<open>ValueError\<close> of geoplot.py:967, not a \<open>ConfigurationError\<close>.
  On \<open>df20\<close> (largest group 1) with a requested \<open>nmin\<close> of 0, which the largest
  group exceeds, no error is returned at all: line 958 replaces the 0 by the default 1.
\<close>

theorem preflight_claim_counterexample:
  "largest_coincidence df_mixed 3 \<and> (2::int) < 3
   \<and> aggplot_quadtree (qt_partition 4) df_mixed None (Some 2) 0 np_mean
       \<noteq> Some (Inl ConfigurationError)
   \<and> largest_coincidence df20 1 \<and> (0::int) < 1
   \<and> map_option isl (aggplot_quadtree (qt_partition 4) df20 None (Some 0) 0 np_mean)
       = Some False"
proof -
  have "aggplot_quadtree (qt_partition 4) df_mixed None (Some 2) 0 np_mean
          = Some (Inl (ValueError (Nmin_coloc 2 3)))"
    by (simp add: eval_defs df_mixed_def)
  moreover have "map_option isl (aggplot_quadtree (qt_partition 4) df20 None (Some 0) 0 np_mean)
          = Some False"
    by code_simp
  ultimately show ?thesis using largest_df_mixed largest_df20 by simp
qed

text \<open>
  C1, amended. Let \<open>m\<close> be the size of the largest coincidence group of the dataset.
  Whenever \<open>m\<close> exceeds the \<open>nmin\<close> in force at the check of geoplot.py:966 (the
  caller's \<open>nmin\<close> if that is a non-zero number, the default of line 958 otherwise), the
  quadtree branch returns the \<open>ValueError\<close> of geoplot.py:967, whose message carries
  that \<open>nmin\<close> and \<open>m\<close>. The result is the same for every \<open>partition\<close> method, also
  one that never returns: \<open>partition\<close> is not called.
\<close>

theorem preflight_rejects_before_partition:
  assumes "largest_coincidence df m" and "nmin_or_default nmin df < int m"
  shows "aggplot_quadtree part df nmax nmin nsig agg
           = Some (Inl (ValueError (Nmin_coloc (nmin_or_default nmin df) (int m))))
         \<and> (\<forall>k. nmin = Some k \<and> k \<noteq> 0 \<longrightarrow> nmin_or_default nmin df = k)"
proof -
  from assms(1) obtain quad where q: "QuadTree df = Inr quad"
    by (auto simp: QuadTree_def dest: largest_coincidence_nonempty)
  from max_coloc_largest [OF assms(1) q] assms(2) q show ?thesis
    by (simp add: aggplot_quadtree_def nmin_or_default_div)
qed

theorem preflight_rejects_before_partition_witness:
  "largest_coincidence df_mixed 3 \<and> nmin_or_default (Some 2) df_mixed < int 3
   \<and> aggplot_quadtree (\<lambda>q a b. None) df_mixed None (Some 2) 0 np_mean
       = Some (Inl (ValueError (Nmin_coloc 2 3)))"
  using preflight_rejects_before_partition
          [of df_mixed 3 "Some 2" "\<lambda>q a b. None" None 0 np_mean] largest_df_mixed
  by (simp add: nmin_or_default_div)

text \<open>
  C8. Building the spatial index of the empty dataset fails with a
  \<open>ConfigurationError\<close>, and the quadtree branch hands exactly this error to its caller,
  whatever the thresholds, the aggregation function and the \<open>partition\<close> method are.
\<close>

theorem empty_dataset_fails:
  "QuadTree [] = Inl ConfigurationError
   \<and> aggplot_quadtree part [] nmax nmin nsig agg = Some (Inl ConfigurationError)"
  by (simp add: QuadTree_def aggplot_quadtree_def)

text \<open>
  C10. For a non-empty dataset of fewer than 20 rows with \<open>nmin\<close> left unspecified or
  passed as \<open>0\<close>, the \<open>nmin\<close> in force is \<open>int(0.05 * len(df)) = 0\<close>, and the quadtree
  branch raises the error of geoplot.py:967 with a positive observed count, whatever
  \<open>nmax\<close> and the \<open>partition\<close> method are.
\<close>

theorem small_dataset_default_nmin_raises:
  assumes "df \<noteq> []" and "length df < 20" and "nmin = None \<or> nmin = Some 0"
  shows "nmin_or_default nmin df = 0
         \<and> (\<exists>m. 0 < m \<and> aggplot_quadtree part df nmax nmin nsig agg
                  = Some (Inl (ValueError (Nmin_coloc 0 m))))"
proof -
  from assms(2,3) have d: "nmin_or_default nmin df = 0"
    by (auto simp: nmin_or_default_div)
  from assms(1) obtain quad where q: "QuadTree df = Inr quad" by (auto simp: QuadTree_def)
  from max_coloc_positive [OF assms(1) q] obtain m where m: "max_coloc quad = Inr m" "1 \<le> m"
    by blast
  then have "aggplot_quadtree part df nmax nmin nsig agg
               = Some (Inl (ValueError (Nmin_coloc 0 m)))"
    using q d by (simp add: aggplot_quadtree_def)
  with d m show ?thesis by auto
qed

theorem small_dataset_default_nmin_raises_witness:
  "df5 \<noteq> [] \<and> length df5 < 20
   \<and> nmin_or_default None df5 = 0
   \<and> (\<exists>m. 0 < m \<and> aggplot_quadtree (\<lambda>q a b. None) df5 (Some 100) None 0 np_mean
                  = Some (Inl (ValueError (Nmin_coloc 0 m))))"
  using small_dataset_default_nmin_raises [of df5 None "\<lambda>q a b. None" "Some 100" 0 np_mean]
  by (simp add: df5_def)






section \<open>Properties of the partitioner\<close>

lemma those_map_list_all2:
  "those (map f xs) = Some ys \<Longrightarrow> list_all2 (\<lambda>x y. f x = Some y) xs ys"
  by (induction xs arbitrary: ys) (auto split: option.splits)

lemma those_map_total:
  "(\<And>x. x \<in> set xs \<Longrightarrow> \<exists>y. f x = Some y) \<Longrightarrow> \<exists>ys. those (map f xs) = Some ys"
proof (induction xs)
  case Nil
  then show ?case by simp
next
  case (Cons x xs)
  then obtain y ys where "f x = Some y" "those (map f xs) = Some ys"
    by (metis list.set_intros(1,2))
  then show ?case by simp
qed

lemma subdivide_Suc_cases:
  assumes "subdivide (Suc k) nmin nmax c = Some t"
  obtains (leaf) "t = QLeaf c"
      and "nmax < int (c_n c) \<Longrightarrow> split_cell c = []"
      and "int (c_n c) \<le> nmax \<Longrightarrow> nmin < int (c_n c) \<Longrightarrow>
             \<not> (split_cell c \<noteq> [] \<and> split_ok nmin (split_cell c))"
  | (node) ts where "t = QNode c ts" and "split_cell c \<noteq> []"
      and "list_all2 (\<lambda>c' t'. subdivide k nmin nmax c' = Some t') (split_cell c) ts"
      and "nmax < int (c_n c) \<or> (nmin < int (c_n c) \<and> split_ok nmin (split_cell c))"
  using assms by (auto split: if_splits dest: those_map_list_all2)

lemma four_way_mset:
  "mset (filter (\<lambda>p. A p \<and> B p) ps) + mset (filter (\<lambda>p. \<not> A p \<and> B p) ps)
     + mset (filter (\<lambda>p. A p \<and> \<not> B p) ps) + mset (filter (\<lambda>p. \<not> A p \<and> \<not> B p) ps) = mset ps"
  by (induction ps) auto

lemma two_way_mset:
  "mset (filter (\<lambda>p. A p) ps) + mset (filter (\<lambda>p. \<not> A p) ps) = mset ps"
  by (induction ps) auto

lemma split_cell_mset:
  assumes "split_cell c \<noteq> []"
  shows "mset (concat (map c_data (split_cell c))) = mset (c_data c)"
proof -
  obtain xmin xmax ymin ymax where b: "c_bounds c = (xmin, xmax, ymin, ymax)"
    by (cases "c_bounds c") auto
  let ?mx = "(xmin + xmax) / 2" and ?my = "(ymin + ymax) / 2"
  have le: "\<And>a (b::rat). (a \<le> b) = (\<not> b < a)" by auto
  show ?thesis
    using assms b
      two_way_mset [of "\<lambda>p. py p < ?my" "c_data c"]
      two_way_mset [of "\<lambda>p. px p < ?mx" "c_data c"]
      four_way_mset [of "\<lambda>p. px p < ?mx" "\<lambda>p. py p < ?my" "c_data c"]
    by (auto simp: split_cell_def mk_cell_def Let_def le add.commute add.left_commute split: if_splits)
qed

lemma concat_map_concat:
  "concat (map f (concat xss)) = concat (map (\<lambda>xs. concat (map f xs)) xss)"
  by (induction xss) auto

lemma mset_concat_list_all2:
  "list_all2 (\<lambda>x y. mset (g y) = mset (f x)) xs ys \<Longrightarrow>
     mset (concat (map g ys)) = mset (concat (map f xs))"
  by (induction rule: list_all2_induct) auto

lemma subdivide_conserves:
  "subdivide k nmin nmax c = Some t \<Longrightarrow> mset (concat (map c_data (leaves t))) = mset (c_data c)"
proof (induction k arbitrary: c t)
  case 0
  then show ?case by simp
next
  case (Suc k)
  from Suc.prems show ?case
  proof (cases rule: subdivide_Suc_cases)
    case leaf
    then show ?thesis by simp
  next
    case (node ts)
    from node(3) have "list_all2 (\<lambda>c' t'. mset (concat (map c_data (leaves t'))) = mset (c_data c'))
        (split_cell c) ts"
      by (rule list_all2_mono) (rule Suc.IH)
    then have "mset (concat (map (\<lambda>t'. concat (map c_data (leaves t'))) ts))
        = mset (concat (map c_data (split_cell c)))"
      by (rule mset_concat_list_all2)
    with node(1,2) show ?thesis
      by (simp add: concat_map_concat split_cell_mset comp_def)
  qed
qed


lemma split_cell_data:
  assumes "c' \<in> set (split_cell c)"
  shows "\<exists>P. c_data c' = filter P (c_data c)"
proof -
  obtain xmin xmax ymin ymax where b: "c_bounds c = (xmin, xmax, ymin, ymax)"
    by (cases "c_bounds c") auto
  from assms b show ?thesis
    by (auto simp: split_cell_def mk_cell_def Let_def split: if_splits)
qed

lemma split_cell_ok:
  assumes "cell_ok c" and "c' \<in> set (split_cell c)"
  shows "cell_ok c'"
proof -
  obtain xmin xmax ymin ymax where b: "c_bounds c = (xmin, xmax, ymin, ymax)"
    by (cases "c_bounds c") auto
  from assms b show ?thesis
    by (auto simp: split_cell_def mk_cell_def Let_def cell_ok_def wf_box_def box_set_def
        coord_def list_all_iff split: if_splits)
qed

lemma split_cell_extent:
  assumes "cell_ok c" and "c' \<in> set (split_cell c)"
  shows "extent (c_bounds c') * 2 = extent (c_bounds c)"
proof -
  obtain xmin xmax ymin ymax where b: "c_bounds c = (xmin, xmax, ymin, ymax)"
    by (cases "c_bounds c") auto
  from assms(1) b have wf: "xmin \<le> xmax" "ymin \<le> ymax"
    by (auto simp: cell_ok_def wf_box_def)
  have h: "(u + v) / 2 - u = (v - u) / 2" "v - (u + v) / 2 = (v - u) / 2" for u v :: rat
    by (simp_all add: field_simps)
  have m: "max (s / 2) (t / 2) * 2 = max s t" "max 0 (t / 2) * 2 = max 0 t"
    "max (s / 2) 0 * 2 = max s 0" for s t :: rat
    by (auto simp: max_def)
  from assms(2) b consider
      "xmin = xmax" "ymin \<noteq> ymax" "c_bounds c' = (xmin, xmax, ymin, (ymin + ymax) / 2)
         \<or> c_bounds c' = (xmin, xmax, (ymin + ymax) / 2, ymax)"
    | "xmin \<noteq> xmax" "ymin = ymax" "c_bounds c' = (xmin, (xmin + xmax) / 2, ymin, ymax)
         \<or> c_bounds c' = ((xmin + xmax) / 2, xmax, ymin, ymax)"
    | "xmin \<noteq> xmax" "ymin \<noteq> ymax"
      "c_bounds c' = (xmin, (xmin + xmax) / 2, ymin, (ymin + ymax) / 2)
         \<or> c_bounds c' = ((xmin + xmax) / 2, xmax, ymin, (ymin + ymax) / 2)
         \<or> c_bounds c' = (xmin, (xmin + xmax) / 2, (ymin + ymax) / 2, ymax)
         \<or> c_bounds c' = ((xmin + xmax) / 2, xmax, (ymin + ymax) / 2, ymax)"
    by (auto simp: split_cell_def mk_cell_def Let_def split: if_splits)
  then show ?thesis
  proof cases
    case 1
    then show ?thesis using b by (auto simp: extent_def h m)
  next
    case 2
    then show ?thesis using b by (auto simp: extent_def h m)
  next
    case 3
    then show ?thesis using b by (auto simp: extent_def h m)
  qed
qed

lemma cell_ok_bounds:
  assumes "cell_ok c" and "c_bounds c = (xmin, xmax, ymin, ymax)" and "p \<in> set (c_data c)"
  shows "xmin \<le> px p" "px p \<le> xmax" "ymin \<le> py p" "py p \<le> ymax"
  using assms by (auto simp: cell_ok_def box_set_def coord_def list_all_iff)

lemma split_cell_Nil_coincident:
  assumes "cell_ok c" and "split_cell c = []"
  shows "coincident (c_data c)"
proof -
  obtain xmin xmax ymin ymax where b: "c_bounds c = (xmin, xmax, ymin, ymax)"
    by (cases "c_bounds c") auto
  from assms(2) b have deg: "xmin = xmax" "ymin = ymax"
    by (auto simp: split_cell_def mk_cell_def Let_def split: if_splits)
  have "coord p = (xmin, ymin)" if "p \<in> set (c_data c)" for p
    using cell_ok_bounds [OF assms(1) b that] deg by (simp add: coord_def)
  then show ?thesis by (simp add: coincident_def list_all_iff)
qed

lemma coloc_le_filter:
  assumes "coloc_le m ps"
  shows "coloc_le m (filter P ps)"
  unfolding coloc_le_def
proof
  fix z
  have "length (filter (\<lambda>p. coord p = z) (filter P ps)) \<le> length (filter (\<lambda>p. coord p = z) ps)"
    by (induction ps) auto
  also from assms have "\<dots> \<le> m" unfolding coloc_le_def by blast
  finally show "length (filter (\<lambda>p. coord p = z) (filter P ps)) \<le> m" .
qed

lemma separated_filter: "separated d ps \<Longrightarrow> separated d (filter P ps)"
  by (simp add: separated_def)

lemma coincident_length:
  assumes "coincident ps" and "coloc_le m ps"
  shows "length ps \<le> m"
proof (cases ps)
  case Nil
  then show ?thesis by simp
next
  case (Cons p qs)
  then have "p \<in> set ps" by simp
  with assms(1) have all: "\<forall>q \<in> set ps. coord q = coord p"
    unfolding coincident_def list_all_iff by blast
  have "filter (\<lambda>q. coord q = coord p) ps = ps"
    by (rule filter_True) (rule all)
  moreover from assms(2) have "length (filter (\<lambda>q. coord q = coord p) ps) \<le> m"
    unfolding coloc_le_def by blast
  ultimately show ?thesis by simp
qed

lemma small_cell_coincident:
  assumes "cell_ok c" and "separated d (c_data c)" and "extent (c_bounds c) < d"
  shows "coincident (c_data c)"
proof -
  obtain xmin xmax ymin ymax where b: "c_bounds c = (xmin, xmax, ymin, ymax)"
    by (cases "c_bounds c") auto
  have "coord p = coord q" if p: "p \<in> set (c_data c)" and q: "q \<in> set (c_data c)" for p q
  proof (rule ccontr)
    assume "coord p \<noteq> coord q"
    with assms(2) p q have d: "d \<le> max \<bar>px p - px q\<bar> \<bar>py p - py q\<bar>"
      by (simp add: separated_def)
    note bp = cell_ok_bounds [OF assms(1) b p] and bq = cell_ok_bounds [OF assms(1) b q]
    from bp(1,2) bq(1,2) have x: "\<bar>px p - px q\<bar> \<le> xmax - xmin"
      by (simp add: abs_le_iff)
    from bp(3,4) bq(3,4) have y: "\<bar>py p - py q\<bar> \<le> ymax - ymin"
      by (simp add: abs_le_iff)
    have "extent (c_bounds c) = max (xmax - xmin) (ymax - ymin)"
      using b by (simp add: extent_def)
    with x y have "max \<bar>px p - px q\<bar> \<bar>py p - py q\<bar> \<le> extent (c_bounds c)"
      by (simp add: max_def)
    with d assms(3) show False by linarith
  qed
  then show ?thesis unfolding coincident_def list_all_iff by blast
qed

end
